theory Spec2Isabelle
  imports Main
begin

section \<open>The view component: frontend/src/App.jsx\<close>

subsection \<open>JavaScript numbers\<close>

text \<open>
  The counter is a JavaScript Number, an IEEE-754 binary64 value. It starts at \<open>0\<close> and
  only ever has \<open>1\<close> added to it, so it always holds a non-negative integer, which the
  model writes as a \<open>nat\<close>. \<open>js_add_one x\<close> is the binary64 result of \<open>x + 1\<close> for such
  a value \<open>x\<close>:
  \<^item> below \<open>2^53\<close> every integer is a binary64 value and the sum is exact;
  \<^item> from \<open>2^53\<close> up to \<open>2^54\<close> the binary64 values are the even integers, \<open>x + 1\<close> lies
    half way between \<open>x\<close> and \<open>x + 2\<close>, and the tie goes to the neighbour whose significand
    \<open>x div 2\<close> is even;
  \<^item> from \<open>2^54\<close> on the spacing is at least \<open>4\<close> and \<open>x + 1\<close> rounds back to \<open>x\<close>.
\<close>

definition js_add_one :: "nat \<Rightarrow> nat" where
  "js_add_one x =
     (if x < 2 ^ 53 then x + 1
      else if x < 2 ^ 54 \<and> odd (x div 2) then x + 2
      else x)"

subsection \<open>Rendered trees\<close>

text \<open>The one piece of component state: \<open>const [count, setCount] = useState(0)\<close>.\<close>

record app_state =
  count :: nat

text \<open>
  A JSX attribute is a string literal, a style object, an imported asset
  (\<open>src={viteLogo}\<close>) or an event handler; a handler is a function on the component
  state.
\<close>

datatype prop_value =
    Str string
  | Style "(string \<times> string) list"
  | Asset string
  | Handler "app_state \<Rightarrow> app_state"

text \<open>
  A rendered tree: an element with its tag, attributes and children, a fragment
  (\<open><> ... </>\<close>), literal text, or the value of a number expression (\<open>{count}\<close>).
\<close>

datatype node =
    Element string "(string \<times> prop_value) list" "node list"
  | Fragment "node list"
  | Text string
  | Expr nat

subsection \<open>What the component uses from React and from the identity provider\<close>

text \<open>
  \<open>useState(0)\<close> gives the state of the first render; \<open>setCount\<close> called with an
  updater function replaces the stored value by the updater applied to the value stored
  before.
\<close>

definition useState :: "nat \<Rightarrow> app_state" where
  "useState initial = \<lparr>count = initial\<rparr>"

definition setCount :: "(nat \<Rightarrow> nat) \<Rightarrow> app_state \<Rightarrow> app_state" where
  "setCount updater s = s\<lparr>count := updater (count s)\<rparr>"

text \<open>
  Modelled from the spec: the identity provider's components \<open>SignedIn\<close> and
  \<open>SignedOut\<close> (package \<open>@clerk/clerk-react\<close>, not part of the repository). The spec
  describes them as gates on a boolean-like signed-in signal which the component does
  not compute: \<open>SignedIn\<close> renders its children when the signal says signed in and
  nothing otherwise, \<open>SignedOut\<close> the other way round.
\<close>

definition SignedIn :: "bool \<Rightarrow> node list \<Rightarrow> node list" where
  "SignedIn signed_in children = (if signed_in then children else [])"

definition SignedOut :: "bool \<Rightarrow> node list \<Rightarrow> node list" where
  "SignedOut signed_in children = (if signed_in then [] else children)"

subsection \<open>The component\<close>

text \<open>The button's handler: \<open>() => setCount((count) => count + 1)\<close>.\<close>

definition onClick :: "app_state \<Rightarrow> app_state" where
  "onClick = setCount (\<lambda>count. js_add_one count)"

text \<open>
  \<open>function App()\<close>, rendered under a given signed-in signal and component state. The
  check mark of the source's \<open>Signed in\<close> label is written as its three UTF-8 bytes.
\<close>

definition App :: "bool \<Rightarrow> app_state \<Rightarrow> node" where
  "App signed_in s =
     Fragment
       [Element ''header''
          [(''style'', Style [(''display'', ''flex''), (''gap'', ''1rem''),
                              (''alignItems'', ''center'')])]
          (SignedOut signed_in
             [Element ''SignInButton'' [(''mode'', Str ''modal'')] [],
              Element ''SignUpButton'' [(''mode'', Str ''modal'')] []]
           @ SignedIn signed_in
             [Element ''UserButton'' [] [],
              Element ''span'' [(''style'', Style [(''marginLeft'', ''0.5rem'')])]
                [Text ([CHR 0xE2, CHR 0x9C, CHR 0x85] @ '' Signed in'')]]),
        Element ''div'' []
          [Element ''a'' [(''href'', Str ''https://vite.dev''), (''target'', Str ''_blank'')]
             [Element ''img'' [(''src'', Asset ''/vite.svg''), (''className'', Str ''logo''),
                               (''alt'', Str ''Vite logo'')] []],
           Element ''a'' [(''href'', Str ''https://react.dev''), (''target'', Str ''_blank'')]
             [Element ''img'' [(''src'', Asset ''./assets/react.svg''),
                               (''className'', Str ''logo react''),
                               (''alt'', Str ''React logo'')] []]],
        Element ''h1'' [] [Text ''Vite + React + Clerk''],
        Element ''div'' [(''className'', Str ''card'')]
          [Element ''button'' [(''onClick'', Handler onClick)]
             [Text ''count is '', Expr (count s)],
           Element ''p'' []
             [Text ''Edit '', Element ''code'' [] [Text ''src/App.jsx''],
              Text '' and save to test HMR'']],
        Element ''p'' [(''className'', Str ''read-the-docs'')]
          [Text ''Click on the Vite and React logos to learn more'']]"

subsection \<open>Reading a rendered tree\<close>

text \<open>The tags of all elements of a tree, in document order.\<close>

fun tags :: "node \<Rightarrow> string list" where
  "tags (Element t ps cs) = t # concat (map tags cs)"
| "tags (Fragment cs) = concat (map tags cs)"
| "tags (Text txt) = []"
| "tags (Expr n) = []"

text \<open>The numbers a tree displays, in document order.\<close>

fun displayed :: "node \<Rightarrow> nat list" where
  "displayed (Element t ps cs) = concat (map displayed cs)"
| "displayed (Fragment cs) = concat (map displayed cs)"
| "displayed (Text txt) = []"
| "displayed (Expr n) = [n]"

text \<open>The click handlers a tree carries, each with the tag of its element.\<close>

fun click_handler :: "string \<times> prop_value \<Rightarrow> (app_state \<Rightarrow> app_state) list" where
  "click_handler (name, Handler h) = (if name = ''onClick'' then [h] else [])"
| "click_handler (name, v) = []"

fun handlers :: "node \<Rightarrow> (string \<times> (app_state \<Rightarrow> app_state)) list" where
  "handlers (Element t ps cs) =
     map (Pair t) (concat (map click_handler ps)) @ concat (map handlers cs)"
| "handlers (Fragment cs) = concat (map handlers cs)"
| "handlers (Text txt) = []"
| "handlers (Expr n) = []"

text \<open>The attribute lists, and the child lists, of the elements with a given tag.\<close>

fun props_of :: "string \<Rightarrow> node \<Rightarrow> (string \<times> prop_value) list list" where
  "props_of tag (Element t ps cs) =
     (if t = tag then [ps] else []) @ concat (map (props_of tag) cs)"
| "props_of tag (Fragment cs) = concat (map (props_of tag) cs)"
| "props_of tag (Text txt) = []"
| "props_of tag (Expr n) = []"

fun children_of :: "string \<Rightarrow> node \<Rightarrow> node list list" where
  "children_of tag (Element t ps cs) =
     (if t = tag then [cs] else []) @ concat (map (children_of tag) cs)"
| "children_of tag (Fragment cs) = concat (map (children_of tag) cs)"
| "children_of tag (Text txt) = []"
| "children_of tag (Expr n) = []"

text \<open>
  The two auth view states: the signed-out view is the pair of sign-in and sign-up
  triggers, the signed-in view is the user menu.
\<close>

definition shows_signed_out :: "node \<Rightarrow> bool" where
  "shows_signed_out t =
     (''SignInButton'' \<in> set (tags t) \<and> ''SignUpButton'' \<in> set (tags t))"

definition shows_signed_in :: "node \<Rightarrow> bool" where
  "shows_signed_in t = (''UserButton'' \<in> set (tags t))"

text \<open>The top-level children of the component's fragment, split at the header.\<close>

fun top_level :: "node \<Rightarrow> node list" where
  "top_level (Fragment cs) = cs"
| "top_level n = [n]"

fun is_header :: "node \<Rightarrow> bool" where
  "is_header (Element t ps cs) = (t = ''header'')"
| "is_header n = False"

definition header_of :: "node \<Rightarrow> node list" where
  "header_of t = filter is_header (top_level t)"

definition outside_header :: "node \<Rightarrow> node list" where
  "outside_header t = filter (\<lambda>n. \<not> is_header n) (top_level t)"

subsection \<open>Events\<close>

text \<open>
  The component is re-rendered when its button is activated (the handler runs on the
  stored state) and when the identity provider changes the signed-in signal (the state
  of the mounted component is kept).
\<close>

datatype event = Click | AuthChanged bool

fun step :: "bool \<times> app_state \<Rightarrow> event \<Rightarrow> bool \<times> app_state" where
  "step (signed_in, s) Click = (signed_in, onClick s)"
| "step (signed_in, s) (AuthChanged b) = (b, s)"

definition run_events :: "event list \<Rightarrow> bool \<times> app_state \<Rightarrow> bool \<times> app_state" where
  "run_events evs w = foldl step w evs"

definition clicks :: "event list \<Rightarrow> nat" where
  "clicks evs = length (filter (\<lambda>e. e = Click) evs)"

text \<open>The state after \<open>n\<close> activations of the button, from the first render.\<close>

definition after_clicks :: "nat \<Rightarrow> app_state" where
  "after_clicks n = (onClick ^^ n) (useState 0)"

section \<open>The render entry point: frontend/src/main.jsx\<close>

text \<open>
  \<open>createRoot(document.getElementById("root")).render(...)\<close>: the tree handed to the
  root. \<open>CLERK_PUBLISHABLE_KEY\<close> is imported from \<open>./config\<close>, which is not among the
  sources, so it is a parameter; the signal and the component state are those under
  which \<open><App />\<close> is rendered.
\<close>

definition root_render :: "string \<Rightarrow> bool \<Rightarrow> app_state \<Rightarrow> node" where
  "root_render CLERK_PUBLISHABLE_KEY signed_in s =
     Element ''StrictMode'' []
       [Element ''ClerkProvider''
          [(''publishableKey'', Str CLERK_PUBLISHABLE_KEY),
           (''afterSignOutUrl'', Str ''/'')]
          [App signed_in s]]"

section \<open>The schema migration\<close>

subsection \<open>Schemas\<close>

text \<open>
  A column type is the extension's \<open>vector(n)\<close> or some other type, kept by name. A
  column without \<open>NOT NULL\<close> is nullable.
\<close>

datatype sql_type = Vector nat | OtherType string

record column =
  col_type :: sql_type
  col_not_null :: bool

datatype relkind = Table | View

record relation =
  rel_kind :: relkind
  rel_columns :: "string \<rightharpoonup> column"

record sql_index =
  idx_relation :: string
  idx_method :: string
  idx_column :: string
  idx_opclass :: string

text \<open>
  A database, as far as the migration reads and writes it: the extensions the server
  can install, the extensions installed, the relations and the indexes, each by name.
\<close>

record database =
  available_extensions :: "string set"
  extensions :: "string set"
  relations :: "string \<rightharpoonup> relation"
  indexes :: "string \<rightharpoonup> sql_index"

text \<open>
  Values stored in a column: \<open>NULL\<close>, a vector with its components, or a value of some
  other type. A \<open>vector(n)\<close> column takes vectors of exactly \<open>n\<close> components; only a
  nullable column takes \<open>NULL\<close>.
\<close>

datatype 'a sql_value = Null | VectorValue "'a list" | OtherValue string

fun column_accepts :: "column \<Rightarrow> 'a sql_value \<Rightarrow> bool" where
  "column_accepts c Null = (\<not> col_not_null c)"
| "column_accepts c (VectorValue xs) =
     (case col_type c of Vector n \<Rightarrow> length xs = n | OtherType t \<Rightarrow> False)"
| "column_accepts c (OtherValue v) =
     (case col_type c of Vector n \<Rightarrow> False | OtherType t \<Rightarrow> True)"

subsection \<open>What the vector extension provides\<close>

text \<open>
  The type \<open>vector(n)\<close> for \<open>1 \<le> n \<le> 16000\<close>, the index access methods \<open>hnsw\<close> and
  \<open>ivfflat\<close>, and operator classes on vectors, one per distance. An \<open>hnsw\<close> index takes
  vectors of at most \<open>2000\<close> components. Operator classes of other types are outside the
  model: it only keeps them apart from the vector ones.
\<close>

datatype distance = L2 | InnerProduct | Cosine

definition type_defined :: "database \<Rightarrow> sql_type \<Rightarrow> bool" where
  "type_defined db ty =
     (case ty of
        Vector n \<Rightarrow> ''vector'' \<in> extensions db \<and> 1 \<le> n \<and> n \<le> 16000
      | OtherType t \<Rightarrow> True)"

definition method_defined :: "database \<Rightarrow> string \<Rightarrow> bool" where
  "method_defined db m =
     (m \<in> {''btree'', ''hash'', ''gist'', ''spgist'', ''gin'', ''brin''}
      \<or> (m \<in> {''hnsw'', ''ivfflat''} \<and> ''vector'' \<in> extensions db))"

definition approximate_nearest_neighbor :: "string \<Rightarrow> bool" where
  "approximate_nearest_neighbor m = (m \<in> {''hnsw'', ''ivfflat''})"

definition opclass_distance :: "string \<Rightarrow> distance option" where
  "opclass_distance oc =
     (if oc = ''vector_l2_ops'' then Some L2
      else if oc = ''vector_ip_ops'' then Some InnerProduct
      else if oc = ''vector_cosine_ops'' then Some Cosine
      else None)"

definition opclass_accepts :: "string \<Rightarrow> string \<Rightarrow> sql_type \<Rightarrow> bool" where
  "opclass_accepts m oc ty =
     (case ty of
        Vector n \<Rightarrow>
          approximate_nearest_neighbor m \<and> opclass_distance oc \<noteq> None
          \<and> (if m = ''hnsw'' then n \<le> 2000 else True)
      | OtherType t \<Rightarrow> opclass_distance oc = None)"

subsection \<open>Statements\<close>

text \<open>
  The three statement forms of the migration; the flag says whether the statement
  carries \<open>IF NOT EXISTS\<close>.
  \<^item> \<open>CREATE EXTENSION [IF NOT EXISTS] name\<close>
  \<^item> \<open>ALTER TABLE relation ADD COLUMN [IF NOT EXISTS] column type\<close>
  \<^item> \<open>CREATE INDEX [IF NOT EXISTS] name ON relation USING method (column opclass)\<close>
\<close>

datatype statement =
    CreateExtension bool string
  | AlterTableAddColumn string bool string sql_type
  | CreateIndex bool string string string string string

datatype sql_error =
    DuplicateObject string
  | ExtensionNotAvailable string
  | UndefinedTable string
  | WrongObjectType string
  | DuplicateColumn string
  | UndefinedType sql_type
  | DuplicateRelation string
  | UndefinedAccessMethod string
  | UndefinedColumn string
  | OpclassRejectsType string sql_type

text \<open>
  One statement against a database, as PostgreSQL with the pgvector extension (the
  extension the file's first comment names) executes it: the error raised, or the
  database after the statement. A statement whose object exists already is skipped when
  it carries \<open>IF NOT EXISTS\<close> and is an error otherwise. \<open>ALTER TABLE ... ADD COLUMN\<close>
  has no \<open>IF EXISTS\<close> on the relation: the relation has to exist, and to be a table; the
  column it adds has no constraint, so it is nullable. \<open>CREATE INDEX\<close> needs a table,
  a known access method, the column, and an operator class that takes the column's
  type; only then does it look at the name, which an index shares with the relations,
  so \<open>IF NOT EXISTS\<close> skips a taken name without hiding those errors.
\<close>

fun exec_statement :: "statement \<Rightarrow> database \<Rightarrow> sql_error + database" where
  "exec_statement (CreateExtension if_not_exists name) db =
     (if name \<in> extensions db
      then (if if_not_exists then Inr db else Inl (DuplicateObject name))
      else if name \<notin> available_extensions db then Inl (ExtensionNotAvailable name)
      else Inr (db\<lparr>extensions := insert name (extensions db)\<rparr>))"
| "exec_statement (AlterTableAddColumn rel if_not_exists col ty) db =
     (case relations db rel of
        None \<Rightarrow> Inl (UndefinedTable rel)
      | Some r \<Rightarrow>
          if rel_kind r \<noteq> Table then Inl (WrongObjectType rel)
          else if rel_columns r col \<noteq> None
          then (if if_not_exists then Inr db else Inl (DuplicateColumn col))
          else if \<not> type_defined db ty then Inl (UndefinedType ty)
          else Inr (db\<lparr>relations := (relations db)
                 (rel \<mapsto> r\<lparr>rel_columns := (rel_columns r)
                    (col \<mapsto> \<lparr>col_type = ty, col_not_null = False\<rparr>)\<rparr>)\<rparr>))"
| "exec_statement (CreateIndex if_not_exists name rel m col oc) db =
     (case relations db rel of
        None \<Rightarrow> Inl (UndefinedTable rel)
      | Some r \<Rightarrow>
          if rel_kind r \<noteq> Table then Inl (WrongObjectType rel)
          else if \<not> method_defined db m then Inl (UndefinedAccessMethod m)
          else (case rel_columns r col of
                  None \<Rightarrow> Inl (UndefinedColumn col)
                | Some c \<Rightarrow>
                    if \<not> opclass_accepts m oc (col_type c)
                    then Inl (OpclassRejectsType oc (col_type c))
                    else if indexes db name \<noteq> None \<or> relations db name \<noteq> None
                    then (if if_not_exists then Inr db else Inl (DuplicateRelation name))
                    else Inr (db\<lparr>indexes := (indexes db)
                           (name \<mapsto> \<lparr>idx_relation = rel, idx_method = m,
                                      idx_column = col, idx_opclass = oc\<rparr>)\<rparr>)))"

text \<open>
  A script is run statement by statement, each on its own: nothing is rolled back, so
  what the statements before an error did stays. Whether the statements after an error
  are still run depends on the client; \<open>stop\<close> says that it stops at the first error.
  The result is the errors raised, in order, and the database left behind.
\<close>

fun run_script :: "bool \<Rightarrow> statement list \<Rightarrow> database \<Rightarrow> sql_error list \<times> database" where
  "run_script stop [] db = ([], db)"
| "run_script stop (st # sts) db =
     (case exec_statement st db of
        Inl e \<Rightarrow>
          if stop then ([e], db)
          else (e # fst (run_script stop sts db), snd (run_script stop sts db))
      | Inr db' \<Rightarrow> run_script stop sts db')"

subsection \<open>The migration\<close>

text \<open>
  \<^verbatim>\<open>CREATE EXTENSION IF NOT EXISTS vector;\<close>

  \<^verbatim>\<open>ALTER TABLE service_search_view ADD COLUMN IF NOT EXISTS embedding vector(1536);\<close>

  \<^verbatim>\<open>CREATE INDEX IF NOT EXISTS idx_embedding_cosine ON service_search_view\<close>
  \<^verbatim>\<open>USING hnsw (embedding vector_cosine_ops);\<close>
\<close>

definition migration :: "statement list" where
  "migration =
     [CreateExtension True ''vector'',
      AlterTableAddColumn ''service_search_view'' True ''embedding'' (Vector 1536),
      CreateIndex True ''idx_embedding_cosine'' ''service_search_view'' ''hnsw''
        ''embedding'' ''vector_cosine_ops'']"

definition run_migration :: "bool \<Rightarrow> database \<Rightarrow> sql_error list \<times> database" where
  "run_migration stop db = run_script stop migration db"

text \<open>
  The database after \<open>n\<close> executions of the migration, and the errors which the
  execution after those \<open>n\<close> raises.
\<close>

definition schema_after :: "bool \<Rightarrow> nat \<Rightarrow> database \<Rightarrow> database" where
  "schema_after stop n db = ((\<lambda>d. snd (run_migration stop d)) ^^ n) db"

definition errors_of_run :: "bool \<Rightarrow> nat \<Rightarrow> database \<Rightarrow> sql_error list" where
  "errors_of_run stop n db = fst (run_migration stop (schema_after stop n db))"

text \<open>The kind of a statement: what it does to the schema.\<close>

datatype statement_kind = EnablesExtension | AddsColumn | AddsIndex

fun kind_of :: "statement \<Rightarrow> statement_kind" where
  "kind_of (CreateExtension if_not_exists name) = EnablesExtension"
| "kind_of (AlterTableAddColumn rel if_not_exists col ty) = AddsColumn"
| "kind_of (CreateIndex if_not_exists name rel m col oc) = AddsIndex"

fun guarded :: "statement \<Rightarrow> bool" where
  "guarded (CreateExtension if_not_exists name) = if_not_exists"
| "guarded (AlterTableAddColumn rel if_not_exists col ty) = if_not_exists"
| "guarded (CreateIndex if_not_exists name rel m col oc) = if_not_exists"

subsection \<open>Notions used to state and prove the properties\<close>

text \<open>The column of a relation, if the relation and the column exist.\<close>

definition column_of :: "database \<Rightarrow> string \<Rightarrow> string \<Rightarrow> column option" where
  "column_of db rel col =
     (case relations db rel of None \<Rightarrow> None | Some r \<Rightarrow> rel_columns r col)"

text \<open>
  The database a statement leaves behind, error or not; a statement is skipped when it
  succeeds and leaves the database as it is; it is settled at \<open>d'\<close> as at \<open>d\<close> when at
  \<open>d'\<close> it changes nothing and raises the error it raised at \<open>d\<close>, or none if it raised
  none.
\<close>

definition state_after :: "statement \<Rightarrow> database \<Rightarrow> database" where
  "state_after st db = (case exec_statement st db of Inl e \<Rightarrow> db | Inr db' \<Rightarrow> db')"

definition skipped :: "statement \<Rightarrow> database \<Rightarrow> bool" where
  "skipped st db = (exec_statement st db = Inr db)"

definition settled_as :: "statement \<Rightarrow> database \<Rightarrow> database \<Rightarrow> bool" where
  "settled_as st d d' =
     (exec_statement st d' =
        (case exec_statement st d of Inl e \<Rightarrow> Inl e | Inr r \<Rightarrow> Inr d'))"

text \<open>
  Three databases to run the migration on. In the first, \<open>service_search_view\<close> is a
  table without an \<open>embedding\<close> column; in the second it is a view; in the third it is a
  table which has an \<open>embedding\<close> column already, of type \<open>text\<close>. The server can
  install the vector extension in all three.
\<close>

definition table_database :: database where
  "table_database =
     \<lparr>available_extensions = {''vector''}, extensions = {},
      relations = [''service_search_view'' \<mapsto>
        \<lparr>rel_kind = Table,
         rel_columns = [''id'' \<mapsto> \<lparr>col_type = OtherType ''integer'', col_not_null = True\<rparr>]\<rparr>],
      indexes = Map.empty\<rparr>"

definition view_database :: database where
  "view_database =
     \<lparr>available_extensions = {''vector''}, extensions = {},
      relations = [''service_search_view'' \<mapsto>
        \<lparr>rel_kind = View,
         rel_columns = [''id'' \<mapsto> \<lparr>col_type = OtherType ''integer'', col_not_null = True\<rparr>]\<rparr>],
      indexes = Map.empty\<rparr>"

definition text_column_database :: database where
  "text_column_database =
     \<lparr>available_extensions = {''vector''}, extensions = {},
      relations = [''service_search_view'' \<mapsto>
        \<lparr>rel_kind = Table,
         rel_columns = [''embedding'' \<mapsto> \<lparr>col_type = OtherType ''text'', col_not_null = False\<rparr>]\<rparr>],
      indexes = Map.empty\<rparr>"

section \<open>The source files as text\<close>

text \<open>The lines of \<open>frontend/src/App.jsx\<close>, of the render entry point and of the SQL file.\<close>

definition App_jsx :: "string list" where
  \<open>App_jsx =
     [''// frontend/src/App.jsx'',
      ''import { useState } from "react";'',
      ''import reactLogo from "./assets/react.svg";'',
      ''import viteLogo from "/vite.svg";'',
      ''import "./App.css";'',
      '''',
      ''// Clerk prebuilt components'',
      ''import {'',
      ''  SignedIn,'',
      ''  SignedOut,'',
      ''  SignInButton,'',
      ''  SignUpButton,'',
      ''  UserButton,'',
      ''} from "@clerk/clerk-react";'',
      '''',
      ''function App() {'',
      ''  const [count, setCount] = useState(0);'',
      '''',
      ''  return ('',
      ''    <>'',
      ''      <header style={{ display: "flex", gap: "1rem", alignItems: "center" }}>'',
      ''        <SignedOut>'',
      ''          <SignInButton mode="modal" />'',
      ''          <SignUpButton mode="modal" />'',
      ''        </SignedOut>'',
      '''',
      ''        <SignedIn>'',
      ''          <UserButton />'',
      ''          <span style={{ marginLeft: "0.5rem" }}>'' @ [CHR 0xE2, CHR 0x9C, CHR 0x85] @ '' Signed in</span>'',
      ''        </SignedIn>'',
      ''      </header>'',
      '''',
      ''      <div>'',
      ''        <a href="https://vite.dev" target="_blank">'',
      ''          <img src={viteLogo} className="logo" alt="Vite logo" />'',
      ''        </a>'',
      ''        <a href="https://react.dev" target="_blank">'',
      ''          <img src={reactLogo} className="logo react" alt="React logo" />'',
      ''        </a>'',
      ''      </div>'',
      '''',
      ''      <h1>Vite + React + Clerk</h1>'',
      '''',
      ''      <div className="card">'',
      ''        <button onClick={() => setCount((count) => count + 1)}>'',
      ''          count is {count}'',
      ''        </button>'',
      ''        <p>'',
      ''          Edit <code>src/App.jsx</code> and save to test HMR'',
      ''        </p>'',
      ''      </div>'',
      '''',
      ''      <p className="read-the-docs">'',
      ''        Click on the Vite and React logos to learn more'',
      ''      </p>'',
      ''    </>'',
      ''  );'',
      ''}'',
      '''',
      ''export default App;'']\<close>

definition main_jsx :: "string list" where
  \<open>main_jsx =
     [''import { StrictMode } from "react";'',
      ''import { createRoot } from "react-dom/client";'',
      ''import "./index.css";'',
      ''import App from "./App.jsx";'',
      ''import { ClerkProvider } from "@clerk/clerk-react";'',
      ''import { CLERK_PUBLISHABLE_KEY } from "./config";'',
      '''',
      ''// Ensure index.html has <div id="root"></div>'',
      ''createRoot(document.getElementById("root")).render('',
      ''  <StrictMode>'',
      ''    <ClerkProvider publishableKey={CLERK_PUBLISHABLE_KEY} afterSignOutUrl="/">'',
      ''      <App />'',
      ''    </ClerkProvider>'',
      ''  </StrictMode>'',
      '');'']\<close>

definition migration_sql :: "string list" where
  \<open>migration_sql =
     [''-- Add pgvector extension'',
      ''CREATE EXTENSION IF NOT EXISTS vector;'',
      '''',
      ''-- Add embedding column to existing table'',
      ''ALTER TABLE service_search_view '',
      ''ADD COLUMN IF NOT EXISTS embedding vector(1536);'',
      '''',
      ''-- Create vector similarity index for fast searches'',
      ''CREATE INDEX IF NOT EXISTS idx_embedding_cosine ON service_search_view '',
      ''USING hnsw (embedding vector_cosine_ops);'']\<close>

definition frontend_files :: "string list list" where
  "frontend_files = [App_jsx, main_jsx]"

text \<open>A file's text: its lines, each ended by a line feed.\<close>

definition file_text :: "string list \<Rightarrow> string" where
  "file_text ls = concat (map (\<lambda>l. l @ [CHR 0x0A]) ls)"

text \<open>Whether a text starts with a given string, and whether the string occurs in it.\<close>

fun starts_with :: "string \<Rightarrow> string \<Rightarrow> bool" where
  "starts_with [] cs = True"
| "starts_with (p # ps) [] = False"
| "starts_with (p # ps) (c # cs) = (p = c \<and> starts_with ps cs)"

fun occurs_in :: "string \<Rightarrow> string \<Rightarrow> bool" where
  "occurs_in p [] = starts_with p []"
| "occurs_in p (c # cs) = (starts_with p (c # cs) \<or> occurs_in p cs)"

text \<open>
  The statements of an SQL text are counted by their terminators: the semicolons
  outside the \<open>--\<close> comments, which run to the end of their line.
\<close>

fun strip_comment :: "string \<Rightarrow> string" where
  "strip_comment (c # d # cs) =
     (if c = CHR ''-'' \<and> d = CHR ''-'' then [] else c # strip_comment (d # cs))"
| "strip_comment cs = cs"

definition statement_count :: "string list \<Rightarrow> nat" where
  "statement_count ls =
     length (filter (\<lambda>c. c = CHR '';'') (concat (map strip_comment ls)))"

section \<open>The counter\<close>

lemma js_add_one_exact: "x < 2 ^ 53 \<Longrightarrow> js_add_one x = x + 1"
  by (simp add: js_add_one_def)

lemma js_add_one_stuck: "x = 2 ^ 53 \<Longrightarrow> js_add_one x = x"
  by (simp add: js_add_one_def)

lemma count_onClick: "count (onClick s) = js_add_one (count s)"
  by (simp add: onClick_def setCount_def)

lemma count_after_clicks_Suc:
  "count (after_clicks (Suc n)) = js_add_one (count (after_clicks n))"
  by (simp add: after_clicks_def count_onClick)

lemma count_after_clicks: "count (after_clicks n) = min n (2 ^ 53)"
proof (induction n)
  case 0
  show ?case by (simp add: after_clicks_def useState_def)
next
  case (Suc n)
  show ?case
  proof (cases "n < 2 ^ 53")
    case True
    then show ?thesis
      using Suc by (simp add: count_after_clicks_Suc js_add_one_exact)
  next
    case False
    then have "count (after_clicks n) = 2 ^ 53"
      using Suc by simp
    then have "js_add_one (count (after_clicks n)) = 2 ^ 53"
      by (simp add: js_add_one_stuck)
    with False show ?thesis
      by (simp add: count_after_clicks_Suc)
  qed
qed

lemma displayed_App: "displayed (App signed_in s) = [count s]"
  by (simp add: App_def SignedIn_def SignedOut_def)

lemma min_step: "min n k \<le> min (Suc n) k \<and> min (Suc n) k \<le> min n k + 1" for n k :: nat
  by arith

text \<open>
  Claim C3, as amended. For every number \<open>n\<close> of activations of the counter button up to
  \<open>2^53\<close>, the counter value which \<open>App\<close> displays equals \<open>n\<close>, whatever the signed-in
  signal; before any activation it is \<open>0\<close>. (The bound is the largest count a JavaScript
  Number reaches by adding \<open>1\<close>.)
\<close>

theorem counter_displays_activations:
  "(n \<le> 2 ^ 53 \<longrightarrow> displayed (App signed_in (after_clicks n)) = [n])
   \<and> displayed (App signed_in (after_clicks 0)) = [0]"
  by (simp add: displayed_App count_after_clicks)

text \<open>Three activations: the button reads \<open>count is 3\<close>.\<close>

theorem counter_displays_activations_witness:
  "(3::nat) \<le> 2 ^ 53 \<and> displayed (App True (after_clicks 3)) = [3]"
  using counter_displays_activations [of 3 True] by simp

text \<open>
  Claim C3 as stated, for every \<open>n\<close>, fails at \<open>n = 2^53 + 1\<close>: the last activation
  computes \<open>2^53 + 1\<close> in binary64, which is \<open>2^53\<close> again.
\<close>

theorem counter_display_counterexample:
  "displayed (App False (after_clicks (2 ^ 53 + 1))) \<noteq> [2 ^ 53 + 1]"
  by (simp add: displayed_App count_after_clicks)

text \<open>
  Claim C9, as amended. An activation of the counter button is a functional update of
  the stored value; while the stored value is below \<open>2^53\<close> it changes the counter by
  exactly \<open>+1\<close>, so the counter strictly increases; and from one activation to the next
  the counter never decreases and never skips a value.
\<close>

theorem activation_adds_one:
  "(count s < 2 ^ 53 \<longrightarrow> count (onClick s) = count s + 1 \<and> count s < count (onClick s))
   \<and> onClick s = s\<lparr>count := js_add_one (count s)\<rparr>
   \<and> count (after_clicks n) \<le> count (after_clicks (Suc n))
   \<and> count (after_clicks (Suc n)) \<le> count (after_clicks n) + 1"
proof -
  have "count (onClick s) = count s + 1 \<and> count s < count (onClick s)" if "count s < 2 ^ 53"
    using that by (simp add: count_onClick js_add_one_exact)
  moreover have "onClick s = s\<lparr>count := js_add_one (count s)\<rparr>"
    by (simp add: onClick_def setCount_def)
  moreover have "count (after_clicks n) \<le> count (after_clicks (Suc n))
      \<and> count (after_clicks (Suc n)) \<le> count (after_clicks n) + 1"
    unfolding count_after_clicks by (rule min_step)
  ultimately show ?thesis by blast
qed

text \<open>The first activation takes the counter from \<open>0\<close> to \<open>1\<close>.\<close>

theorem activation_adds_one_witness:
  "count (useState 0) < 2 ^ 53 \<and> count (onClick (useState 0)) = 1
   \<and> count (after_clicks 1) = 1"
  using activation_adds_one [of "useState 0" 0]
  by (simp add: useState_def after_clicks_def js_add_one_def)

text \<open>
  Claim C9 as stated, for every activation, fails in the state reached after \<open>2^53\<close>
  activations: one more leaves the counter where it is.
\<close>

theorem activation_counterexample:
  "count (onClick (after_clicks (2 ^ 53))) \<noteq> count (after_clicks (2 ^ 53)) + 1"
  by (simp add: count_onClick count_after_clicks js_add_one_def)

section \<open>The auth views\<close>

lemma tags_App:
  "tags (App signed_in s) =
     ''header'' #
     (if signed_in then [''UserButton'', ''span''] else [''SignInButton'', ''SignUpButton''])
     @ [''div'', ''a'', ''img'', ''a'', ''img'', ''h1'', ''div'', ''button'', ''p'', ''code'', ''p'']"
  by (simp add: App_def SignedIn_def SignedOut_def)

text \<open>
  Claim C2. For every value of the signed-in signal, \<open>App\<close> renders exactly one of the
  two auth view states: the user menu when the signal says signed in and no sign-in or
  sign-up trigger then, both triggers and no user menu otherwise. Which one depends on
  the signal alone: the header is the same for any two component states.
\<close>

theorem exactly_one_auth_view:
  "shows_signed_in (App signed_in s) = signed_in
   \<and> shows_signed_out (App signed_in s) = (\<not> signed_in)
   \<and> (''SignInButton'' \<in> set (tags (App signed_in s))) = (\<not> signed_in)
   \<and> (''SignUpButton'' \<in> set (tags (App signed_in s))) = (\<not> signed_in)
   \<and> shows_signed_in (App signed_in s) \<noteq> shows_signed_out (App signed_in s)
   \<and> header_of (App signed_in s) = header_of (App signed_in s')"
  by (cases signed_in) (simp_all add: shows_signed_in_def shows_signed_out_def tags_App,
      simp_all add: header_of_def App_def)

lemma run_events_count:
  "snd (run_events evs (b, s)) = (onClick ^^ clicks evs) s"
proof (induction evs arbitrary: b s)
  case Nil
  show ?case by (simp add: run_events_def clicks_def)
next
  case (Cons e evs)
  show ?case
  proof (cases e)
    case Click
    with Cons [of b "onClick s"] show ?thesis
      by (simp add: run_events_def clicks_def funpow_swap1)
  next
    case (AuthChanged b')
    with Cons [of b' s] show ?thesis
      by (simp add: run_events_def clicks_def)
  qed
qed

text \<open>
  Claim C10. The signed-in signal reaches the header of \<open>App\<close> only. Under any two
  values of the signal and the same counter state, what is rendered outside the header
  (the logos, the heading, the counter card with its handler, the footer text) is the
  same, and the rendered tree is the header followed by exactly that. A change of the
  signal leaves the counter state as it is, and after any sequence of events the
  counter state is the one its activations alone give, whatever the signal was.
\<close>

theorem signal_touches_header_only:
  "outside_header (App b1 s) = outside_header (App b2 s)
   \<and> App b1 s = Fragment (header_of (App b1 s) @ outside_header (App b1 s))
   \<and> concat (map displayed (outside_header (App b1 s))) = [count s]
   \<and> snd (step (b1, s) (AuthChanged b2)) = s
   \<and> snd (run_events evs (b1, s)) = snd (run_events (filter (\<lambda>e. e = Click) evs) (b2, s))"
  by (simp add: run_events_count clicks_def)
    (simp add: outside_header_def header_of_def App_def)

section \<open>The provider's configuration\<close>

text \<open>
  Claim C5, as amended. The render entry point configures the identity provider's
  context with exactly two values, the publishable key and the after-sign-out URL
  \<open>/\<close>, and renders the \<open>App\<close> tree, and nothing else, inside it.
\<close>

theorem provider_configuration:
  "props_of ''ClerkProvider'' (root_render key signed_in s) =
     [[(''publishableKey'', Str key), (''afterSignOutUrl'', Str ''/'')]]
   \<and> children_of ''ClerkProvider'' (root_render key signed_in s) = [[App signed_in s]]"
  by (simp add: root_render_def) (simp add: App_def SignedIn_def SignedOut_def)

text \<open>
  Claim C5 as stated, with the publishable key as the one configuration value, fails
  for any key: the provider is given \<open>afterSignOutUrl\<close> as well.
\<close>

theorem provider_configuration_counterexample:
  "map (map fst) (props_of ''ClerkProvider'' (root_render ''pk_test_key'' False (useState 0)))
     \<noteq> [[''publishableKey'']]"
  by (simp add: root_render_def App_def SignedIn_def SignedOut_def)

section \<open>Re-running the migration\<close>

lemma ext_then_skipped:
  "exec_statement (CreateExtension True n) db = Inr d \<Longrightarrow> skipped (CreateExtension True n) d"
  by (auto simp: skipped_def split: if_splits)

lemma col_then_skipped:
  "exec_statement (AlterTableAddColumn r True c ty) db = Inr d \<Longrightarrow>
   skipped (AlterTableAddColumn r True c ty) d"
  by (auto simp: skipped_def split: option.splits if_splits)

lemma method_defined_indexes:
  "method_defined (db\<lparr>indexes := X\<rparr>) m = method_defined db m"
  by (simp add: method_defined_def)

lemma idx_then_skipped:
  "exec_statement (CreateIndex True n r m c oc) db = Inr d \<Longrightarrow>
   skipped (CreateIndex True n r m c oc) d"
  by (auto simp: skipped_def method_defined_indexes split: option.splits if_splits)

lemma col_changes:
  "exec_statement (AlterTableAddColumn r g c ty) db = Inr d \<Longrightarrow> \<exists>R. d = db\<lparr>relations := R\<rparr>"
  by (auto split: option.splits if_splits intro: exI [of _ "relations db"])

lemma idx_changes:
  "exec_statement (CreateIndex g n r m c oc) db = Inr d \<Longrightarrow> \<exists>X. d = db\<lparr>indexes := X\<rparr>"
  by (auto split: option.splits if_splits intro: exI [of _ "indexes db"])

lemma ext_commutes_relations:
  "exec_statement (CreateExtension g n) (db\<lparr>relations := R\<rparr>) =
   map_sum id (\<lambda>d. d\<lparr>relations := R\<rparr>) (exec_statement (CreateExtension g n) db)"
  by simp

lemma ext_commutes_indexes:
  "exec_statement (CreateExtension g n) (db\<lparr>indexes := X\<rparr>) =
   map_sum id (\<lambda>d. d\<lparr>indexes := X\<rparr>) (exec_statement (CreateExtension g n) db)"
  by simp

lemma type_defined_indexes: "type_defined (db\<lparr>indexes := X\<rparr>) ty = type_defined db ty"
  by (cases ty) (simp_all add: type_defined_def)

lemma col_commutes_indexes:
  "exec_statement (AlterTableAddColumn r g c ty) (db\<lparr>indexes := X\<rparr>) =
   map_sum id (\<lambda>d. d\<lparr>indexes := X\<rparr>) (exec_statement (AlterTableAddColumn r g c ty) db)"
  by (simp add: type_defined_indexes split: option.splits)

lemma ext_skipped_relations:
  "skipped (CreateExtension g n) db \<Longrightarrow> skipped (CreateExtension g n) (db\<lparr>relations := R\<rparr>)"
  unfolding skipped_def ext_commutes_relations by simp

lemma ext_skipped_indexes:
  "skipped (CreateExtension g n) db \<Longrightarrow> skipped (CreateExtension g n) (db\<lparr>indexes := X\<rparr>)"
  unfolding skipped_def ext_commutes_indexes by simp

lemma col_skipped_indexes:
  "skipped (AlterTableAddColumn r g c ty) db \<Longrightarrow>
   skipped (AlterTableAddColumn r g c ty) (db\<lparr>indexes := X\<rparr>)"
  unfolding skipped_def col_commutes_indexes by simp

lemma migration_rerun_stop:
  "run_migration True (snd (run_migration True db)) = run_migration True db"
proof -
  let ?s1 = "CreateExtension True ''vector''"
  let ?s2 = "AlterTableAddColumn ''service_search_view'' True ''embedding'' (Vector 1536)"
  let ?s3 = "CreateIndex True ''idx_embedding_cosine'' ''service_search_view'' ''hnsw''
        ''embedding'' ''vector_cosine_ops''"
  have run: "run_migration True d = run_script True [?s1, ?s2, ?s3] d" for d
    by (simp add: run_migration_def migration_def)
  show ?thesis
  proof (cases "exec_statement ?s1 db")
    case (Inl e)
    then show ?thesis unfolding run by simp
  next
    case s1: (Inr d1)
    then have k1: "skipped ?s1 d1" by (rule ext_then_skipped)
    show ?thesis
    proof (cases "exec_statement ?s2 d1")
      case (Inl e)
      with s1 k1 show ?thesis unfolding run skipped_def by simp
    next
      case s2: (Inr d2)
      then have k2: "skipped ?s2 d2" by (rule col_then_skipped)
      from s2 k1 have k12: "skipped ?s1 d2"
        using col_changes [OF s2] ext_skipped_relations by blast
      show ?thesis
      proof (cases "exec_statement ?s3 d2")
        case (Inl e)
        with s1 s2 k12 k2 show ?thesis unfolding run skipped_def by simp
      next
        case s3: (Inr d3)
        then have k3: "skipped ?s3 d3" by (rule idx_then_skipped)
        from s3 k12 have k13: "skipped ?s1 d3"
          using idx_changes [OF s3] ext_skipped_indexes by blast
        from s3 k2 have k23: "skipped ?s2 d3"
          using idx_changes [OF s3] col_skipped_indexes by blast
        from s1 s2 s3 k13 k23 k3 show ?thesis unfolding run skipped_def by simp
      qed
    qed
  qed
qed


lemma guarded_settled: "guarded st \<Longrightarrow> settled_as st d (state_after st d)"
proof (cases "exec_statement st d")
  case (Inl e)
  then show ?thesis by (simp add: settled_as_def state_after_def)
next
  case (Inr r)
  assume g: "guarded st"
  have "skipped st r"
  proof (cases st)
    case (CreateExtension g n)
    with g Inr show ?thesis using ext_then_skipped by simp
  next
    case (AlterTableAddColumn rel g c ty)
    with g Inr show ?thesis using col_then_skipped by simp
  next
    case (CreateIndex g n rel m c oc)
    with g Inr show ?thesis using idx_then_skipped by simp
  qed
  with Inr show ?thesis by (simp add: settled_as_def state_after_def skipped_def)
qed

lemma run_three_continue:
  "run_script False [s1, s2, s3] db =
     ((case exec_statement s1 db of Inl e \<Rightarrow> [e] | Inr r \<Rightarrow> [])
      @ (case exec_statement s2 (state_after s1 db) of Inl e \<Rightarrow> [e] | Inr r \<Rightarrow> [])
      @ (case exec_statement s3 (state_after s2 (state_after s1 db)) of
           Inl e \<Rightarrow> [e] | Inr r \<Rightarrow> []),
      state_after s3 (state_after s2 (state_after s1 db)))"
  by (auto simp: state_after_def split: sum.splits)

lemma run_three_settled:
  assumes "settled_as s1 a d" and "settled_as s2 b d" and "settled_as s3 c d"
  shows "run_script False [s1, s2, s3] d =
     ((case exec_statement s1 a of Inl e \<Rightarrow> [e] | Inr r \<Rightarrow> [])
      @ (case exec_statement s2 b of Inl e \<Rightarrow> [e] | Inr r \<Rightarrow> [])
      @ (case exec_statement s3 c of Inl e \<Rightarrow> [e] | Inr r \<Rightarrow> []), d)"
  using assms unfolding settled_as_def by (auto split: sum.splits)

lemma ext_settled_relations:
  "settled_as (CreateExtension g n) d d' \<Longrightarrow> settled_as (CreateExtension g n) d (d'\<lparr>relations := R\<rparr>)"
  unfolding settled_as_def ext_commutes_relations by (simp split: sum.splits)

lemma ext_settled_indexes:
  "settled_as (CreateExtension g n) d d' \<Longrightarrow> settled_as (CreateExtension g n) d (d'\<lparr>indexes := X\<rparr>)"
  unfolding settled_as_def ext_commutes_indexes by (simp split: sum.splits)

lemma col_settled_indexes:
  "settled_as (AlterTableAddColumn r g c ty) d d' \<Longrightarrow>
   settled_as (AlterTableAddColumn r g c ty) d (d'\<lparr>indexes := X\<rparr>)"
  unfolding settled_as_def col_commutes_indexes by (simp split: sum.splits)

lemma col_state_after:
  "\<exists>R. state_after (AlterTableAddColumn r g c ty) d = d\<lparr>relations := R\<rparr>"
proof (cases "exec_statement (AlterTableAddColumn r g c ty) d")
  case (Inl e)
  then have "state_after (AlterTableAddColumn r g c ty) d = d\<lparr>relations := relations d\<rparr>"
    by (simp add: state_after_def)
  then show ?thesis by (rule exI [of _ "relations d"])
next
  case (Inr d')
  then show ?thesis using col_changes [OF Inr] by (simp add: state_after_def)
qed

lemma idx_state_after:
  "\<exists>X. state_after (CreateIndex g n r m c oc) d = d\<lparr>indexes := X\<rparr>"
proof (cases "exec_statement (CreateIndex g n r m c oc) d")
  case (Inl e)
  then have "state_after (CreateIndex g n r m c oc) d = d\<lparr>indexes := indexes d\<rparr>"
    by (simp add: state_after_def)
  then show ?thesis by (rule exI [of _ "indexes d"])
next
  case (Inr d')
  then show ?thesis using idx_changes [OF Inr] by (simp add: state_after_def)
qed

lemma migration_rerun_continue:
  "run_migration False (snd (run_migration False db)) = run_migration False db"
proof -
  let ?s1 = "CreateExtension True ''vector''"
  let ?s2 = "AlterTableAddColumn ''service_search_view'' True ''embedding'' (Vector 1536)"
  let ?s3 = "CreateIndex True ''idx_embedding_cosine'' ''service_search_view'' ''hnsw''
        ''embedding'' ''vector_cosine_ops''"
  define d1 where "d1 = state_after ?s1 db"
  define d2 where "d2 = state_after ?s2 d1"
  define d3 where "d3 = state_after ?s3 d2"
  have run: "run_migration False d = run_script False [?s1, ?s2, ?s3] d" for d
    by (simp add: run_migration_def migration_def)
  have first: "run_script False [?s1, ?s2, ?s3] db =
     ((case exec_statement ?s1 db of Inl e \<Rightarrow> [e] | Inr r \<Rightarrow> [])
      @ (case exec_statement ?s2 d1 of Inl e \<Rightarrow> [e] | Inr r \<Rightarrow> [])
      @ (case exec_statement ?s3 d2 of Inl e \<Rightarrow> [e] | Inr r \<Rightarrow> []), d3)"
    unfolding d3_def d2_def d1_def by (rule run_three_continue)
  obtain R where R: "d2 = d1\<lparr>relations := R\<rparr>"
    unfolding d2_def using col_state_after by blast
  obtain X where X: "d3 = d2\<lparr>indexes := X\<rparr>"
    unfolding d3_def using idx_state_after by blast
  have "settled_as ?s1 db d1"
    unfolding d1_def by (rule guarded_settled) simp
  then have k1: "settled_as ?s1 db d3"
    unfolding R X by (intro ext_settled_indexes ext_settled_relations)
  have "settled_as ?s2 d1 d2"
    unfolding d2_def by (rule guarded_settled) simp
  then have k2: "settled_as ?s2 d1 d3"
    unfolding X by (rule col_settled_indexes)
  have k3: "settled_as ?s3 d2 d3"
    unfolding d3_def by (rule guarded_settled) simp
  have again: "run_script False [?s1, ?s2, ?s3] d3 =
     ((case exec_statement ?s1 db of Inl e \<Rightarrow> [e] | Inr r \<Rightarrow> [])
      @ (case exec_statement ?s2 d1 of Inl e \<Rightarrow> [e] | Inr r \<Rightarrow> [])
      @ (case exec_statement ?s3 d2 of Inl e \<Rightarrow> [e] | Inr r \<Rightarrow> []), d3)"
    using k1 k2 k3 by (rule run_three_settled)
  show ?thesis unfolding run unfolding first snd_conv again ..
qed

lemma migration_rerun:
  "run_migration stop (snd (run_migration stop db)) = run_migration stop db"
  by (cases stop) (simp_all add: migration_rerun_stop migration_rerun_continue)

lemma run_schema_after:
  "run_migration stop (schema_after stop n db) = run_migration stop db"
  by (induction n) (simp_all add: schema_after_def migration_rerun)

lemma schema_after_Suc:
  "schema_after stop (Suc n) db = snd (run_migration stop db)"
  using run_schema_after [of stop n db] by (simp add: schema_after_def)

lemma errors_of_run_eq: "errors_of_run stop n db = fst (run_migration stop db)"
  by (simp add: errors_of_run_def run_schema_after)

lemma ext_succeeds:
  assumes "n \<in> extensions db \<union> available_extensions db"
  shows "\<exists>d. exec_statement (CreateExtension True n) db = Inr d \<and> n \<in> extensions d
     \<and> relations d = relations db \<and> indexes d = indexes db"
  using assms by auto

lemma col_succeeds:
  assumes "relations db rel = Some r" and "rel_kind r = Table" and "rel_columns r col = None"
    and "type_defined db ty"
  shows "exec_statement (AlterTableAddColumn rel True col ty) db =
     Inr (db\<lparr>relations := (relations db)
        (rel \<mapsto> r\<lparr>rel_columns := (rel_columns r)
           (col \<mapsto> \<lparr>col_type = ty, col_not_null = False\<rparr>)\<rparr>)\<rparr>)"
  using assms by simp

lemma idx_succeeds:
  assumes "relations db rel = Some r" and "rel_kind r = Table" and "rel_columns r col = Some c"
    and "method_defined db m" and "opclass_accepts m oc (col_type c)"
  shows "\<exists>d. exec_statement (CreateIndex True n rel m col oc) db = Inr d"
  using assms by simp

lemma migration_succeeds:
  assumes r: "relations db ''service_search_view'' = Some r" and t: "rel_kind r = Table"
    and c: "rel_columns r ''embedding'' = None"
    and e: "''vector'' \<in> extensions db \<union> available_extensions db"
  shows "fst (run_migration stop db) = []"
proof -
  let ?s1 = "CreateExtension True ''vector''"
  let ?s2 = "AlterTableAddColumn ''service_search_view'' True ''embedding'' (Vector 1536)"
  let ?s3 = "CreateIndex True ''idx_embedding_cosine'' ''service_search_view'' ''hnsw''
        ''embedding'' ''vector_cosine_ops''"
  from ext_succeeds [OF e] obtain d1 where s1: "exec_statement ?s1 db = Inr d1"
    and e1: "''vector'' \<in> extensions d1" and r1: "relations d1 = relations db"
    by blast
  define r' where "r' = r\<lparr>rel_columns := (rel_columns r)
       (''embedding'' \<mapsto> \<lparr>col_type = Vector 1536, col_not_null = False\<rparr>)\<rparr>"
  define d2 where "d2 = d1\<lparr>relations := (relations d1)(''service_search_view'' \<mapsto> r')\<rparr>"
  have "type_defined d1 (Vector 1536)"
    using e1 by (simp add: type_defined_def)
  with r t c r1 have s2: "exec_statement ?s2 d1 = Inr d2"
    unfolding d2_def r'_def by (intro col_succeeds) simp_all
  have "relations d2 ''service_search_view'' = Some r'" "rel_kind r' = Table"
    "rel_columns r' ''embedding'' = Some \<lparr>col_type = Vector 1536, col_not_null = False\<rparr>"
    using t by (simp_all add: d2_def r'_def)
  moreover have "method_defined d2 ''hnsw''"
    using e1 by (simp add: method_defined_def d2_def)
  moreover have "opclass_accepts ''hnsw'' ''vector_cosine_ops''
      (col_type \<lparr>col_type = Vector 1536, col_not_null = False\<rparr>)"
    by (simp add: opclass_accepts_def approximate_nearest_neighbor_def opclass_distance_def)
  ultimately obtain d3 where s3: "exec_statement ?s3 d2 = Inr d3"
    using idx_succeeds by blast
  have "run_script stop [?s1, ?s2, ?s3] db = ([], d3)"
    by (simp only: run_script.simps s1 s2 s3 sum.case)
  then show ?thesis
    by (simp add: run_migration_def migration_def)
qed

lemma run_table_database:
  "run_migration stop table_database =
     ([], \<lparr>available_extensions = {''vector''}, extensions = {''vector''},
      relations = [''service_search_view'' \<mapsto>
        \<lparr>rel_kind = Table,
         rel_columns = [''id'' \<mapsto> \<lparr>col_type = OtherType ''integer'', col_not_null = True\<rparr>,
           ''embedding'' \<mapsto> \<lparr>col_type = Vector 1536, col_not_null = False\<rparr>]\<rparr>],
      indexes = [''idx_embedding_cosine'' \<mapsto>
        \<lparr>idx_relation = ''service_search_view'', idx_method = ''hnsw'',
         idx_column = ''embedding'', idx_opclass = ''vector_cosine_ops''\<rparr>]\<rparr>)"
  by (simp add: run_migration_def migration_def table_database_def type_defined_def
      method_defined_def opclass_accepts_def approximate_nearest_neighbor_def
      opclass_distance_def)

lemma run_view_database:
  "run_migration True view_database =
     ([WrongObjectType ''service_search_view''], view_database\<lparr>extensions := {''vector''}\<rparr>)"
  by (simp add: run_migration_def migration_def view_database_def)

lemma run_text_column_database:
  "run_migration True text_column_database =
     ([OpclassRejectsType ''vector_cosine_ops'' (OtherType ''text'')],
      text_column_database\<lparr>extensions := {''vector''}\<rparr>)"
  by (simp add: run_migration_def migration_def text_column_database_def type_defined_def
      method_defined_def opclass_accepts_def approximate_nearest_neighbor_def
      opclass_distance_def)

lemma run_view_database_continue:
  "fst (run_migration False view_database) =
     [WrongObjectType ''service_search_view'', WrongObjectType ''service_search_view'']"
  by (simp add: run_migration_def migration_def view_database_def)

text \<open>
  Claim C1, as amended. On every database, executing the migration any number of times
  (at least once) leaves the schema which executing it once leaves, and every
  re-execution raises exactly the errors which the first execution raised: none when
  the first raised none. The first execution raises none when \<open>service_search_view\<close> is
  a table without an \<open>embedding\<close> column and the vector extension is installed or can be
  installed. This holds whether or not the client stops at the first error.
\<close>

theorem migration_rerun_idempotent:
  "schema_after stop (Suc n) db = schema_after stop 1 db
   \<and> errors_of_run stop n db = errors_of_run stop 0 db
   \<and> (errors_of_run stop 0 db = [] \<longrightarrow> errors_of_run stop n db = [])
   \<and> ((\<exists>r. relations db ''service_search_view'' = Some r \<and> rel_kind r = Table
          \<and> rel_columns r ''embedding'' = None)
        \<and> ''vector'' \<in> extensions db \<union> available_extensions db
      \<longrightarrow> errors_of_run stop 0 db = [])"
  using schema_after_Suc [of stop n db] schema_after_Suc [of stop 0 db]
  by (auto simp: errors_of_run_eq migration_succeeds)

text \<open>
  On a database where \<open>service_search_view\<close> is a table the first execution raises no
  error, three executions leave the schema of one, and the third raises no error.
\<close>

theorem migration_rerun_idempotent_witness:
  "errors_of_run False 0 table_database = []
   \<and> schema_after False 3 table_database = schema_after False 1 table_database
   \<and> errors_of_run False 2 table_database = []"
proof -
  have first: "errors_of_run False 0 table_database = []"
    by (simp add: errors_of_run_def schema_after_def run_table_database)
  from first migration_rerun_idempotent [of False 2 table_database] show ?thesis
    by (simp add: numeral_3_eq_3)
qed

text \<open>
  Claim C1 as stated, with no error on re-execution wherever the relation exists, fails
  where the relation is a view, and where it is a table whose \<open>embedding\<close> column has
  another type: the second execution raises an error, as the first did.
\<close>

theorem migration_rerun_error_counterexample:
  "relations view_database ''service_search_view'' \<noteq> None
   \<and> errors_of_run True 1 view_database \<noteq> []
   \<and> errors_of_run False 1 view_database \<noteq> []
   \<and> relations text_column_database ''service_search_view'' \<noteq> None
   \<and> errors_of_run True 1 text_column_database \<noteq> []"
  by (simp add: errors_of_run_eq run_view_database run_view_database_continue
      run_text_column_database)
    (simp add: view_database_def text_column_database_def)

section \<open>What the migration creates\<close>

lemma run_three_state:
  "snd (run_script stop [s1, s2, s3] db) = state_after s1 db
   \<or> snd (run_script stop [s1, s2, s3] db) = state_after s2 (state_after s1 db)
   \<or> snd (run_script stop [s1, s2, s3] db) = state_after s3 (state_after s2 (state_after s1 db))"
  by (auto simp: state_after_def split: sum.splits)

lemma ext_state_after:
  "relations (state_after (CreateExtension g n) d) = relations d"
  "indexes (state_after (CreateExtension g n) d) = indexes d"
  by (simp_all add: state_after_def)

lemma col_state_after_indexes:
  "indexes (state_after (AlterTableAddColumn r g c ty) d) = indexes d"
  using col_state_after [of r g c ty d] by auto

lemma idx_state_after_relations:
  "relations (state_after (CreateIndex g n r m c oc) d) = relations d"
  using idx_state_after [of g n r m c oc d] by auto

lemma col_adds:
  assumes "column_of d r c = None"
    and "column_of (state_after (AlterTableAddColumn r g c ty) d) r c = Some x"
  shows "x = \<lparr>col_type = ty, col_not_null = False\<rparr>"
  using assms
  by (auto simp: column_of_def state_after_def split: option.splits if_splits)

lemma idx_adds:
  assumes "indexes d n = None"
    and "indexes (state_after (CreateIndex g n r m c oc) d) n = Some i"
  shows "i = \<lparr>idx_relation = r, idx_method = m, idx_column = c, idx_opclass = oc\<rparr>
     \<and> (\<exists>x. column_of d r c = Some x \<and> opclass_accepts m oc (col_type x))"
  using assms
  by (auto simp: column_of_def state_after_def split: option.splits if_splits)

text \<open>
  Whatever a run adds under the column's name, or creates under the index's name, is
  the column and the index of the statements.
\<close>

lemma added_column_type:
  assumes "column_of db ''service_search_view'' ''embedding'' = None"
    and "column_of (snd (run_migration stop db)) ''service_search_view'' ''embedding'' = Some c"
  shows "col_type c = Vector 1536 \<and> \<not> col_not_null c
     \<and> column_accepts c Null
     \<and> (\<forall>xs. column_accepts c (VectorValue xs) = (length xs = 1536))
     \<and> (\<forall>v. \<not> column_accepts c (OtherValue v))"
proof -
  let ?s1 = "CreateExtension True ''vector''"
  let ?s2 = "AlterTableAddColumn ''service_search_view'' True ''embedding'' (Vector 1536)"
  let ?s3 = "CreateIndex True ''idx_embedding_cosine'' ''service_search_view'' ''hnsw''
        ''embedding'' ''vector_cosine_ops''"
  let ?d1 = "state_after ?s1 db"
  let ?d2 = "state_after ?s2 ?d1"
  let ?f = "snd (run_migration stop db)"
  have "?f = ?d1 \<or> ?f = ?d2 \<or> ?f = state_after ?s3 ?d2"
    unfolding run_migration_def migration_def by (rule run_three_state)
  then have "relations ?f = relations db \<or> relations ?f = relations ?d2"
    by (auto simp: ext_state_after idx_state_after_relations)
  then have "column_of ?f ''service_search_view'' ''embedding'' =
        column_of db ''service_search_view'' ''embedding''
      \<or> column_of ?f ''service_search_view'' ''embedding'' =
        column_of ?d2 ''service_search_view'' ''embedding''"
    by (auto simp: column_of_def)
  with assms have after: "column_of ?d2 ''service_search_view'' ''embedding'' = Some c"
    by auto
  from assms(1) have "column_of ?d1 ''service_search_view'' ''embedding'' = None"
    by (simp add: column_of_def ext_state_after)
  then have "c = \<lparr>col_type = Vector 1536, col_not_null = False\<rparr>"
    using after by (rule col_adds)
  then show ?thesis by simp
qed

lemma created_index_shape:
  assumes "indexes db ''idx_embedding_cosine'' = None"
    and "indexes (snd (run_migration stop db)) ''idx_embedding_cosine'' = Some i"
  shows "i = \<lparr>idx_relation = ''service_search_view'', idx_method = ''hnsw'',
              idx_column = ''embedding'', idx_opclass = ''vector_cosine_ops''\<rparr>
     \<and> approximate_nearest_neighbor (idx_method i)
     \<and> opclass_distance (idx_opclass i) = Some Cosine
     \<and> (\<exists>x n. column_of (snd (run_migration stop db)) (idx_relation i) (idx_column i) = Some x
          \<and> col_type x = Vector n)"
proof -
  let ?s1 = "CreateExtension True ''vector''"
  let ?s2 = "AlterTableAddColumn ''service_search_view'' True ''embedding'' (Vector 1536)"
  let ?s3 = "CreateIndex True ''idx_embedding_cosine'' ''service_search_view'' ''hnsw''
        ''embedding'' ''vector_cosine_ops''"
  let ?d1 = "state_after ?s1 db"
  let ?d2 = "state_after ?s2 ?d1"
  let ?d3 = "state_after ?s3 ?d2"
  let ?f = "snd (run_migration stop db)"
  have before: "indexes ?d2 ''idx_embedding_cosine'' = None"
    using assms(1) by (simp add: ext_state_after col_state_after_indexes)
  have "?f = ?d1 \<or> ?f = ?d2 \<or> ?f = ?d3"
    unfolding run_migration_def migration_def by (rule run_three_state)
  moreover have "indexes ?d1 = indexes db" "indexes ?d2 = indexes db"
    by (simp_all add: ext_state_after col_state_after_indexes)
  ultimately have final: "?f = ?d3"
    using assms by auto
  with assms(2) have after: "indexes ?d3 ''idx_embedding_cosine'' = Some i"
    by simp
  from idx_adds [OF before after]
  obtain x where i: "i = \<lparr>idx_relation = ''service_search_view'', idx_method = ''hnsw'',
              idx_column = ''embedding'', idx_opclass = ''vector_cosine_ops''\<rparr>"
    and x: "column_of ?d2 ''service_search_view'' ''embedding'' = Some x"
    and acc: "opclass_accepts ''hnsw'' ''vector_cosine_ops'' (col_type x)"
    by blast
  from acc obtain n where n: "col_type x = Vector n"
    by (cases "col_type x") (simp_all add: opclass_accepts_def opclass_distance_def)
  have "column_of ?f ''service_search_view'' ''embedding'' = Some x"
    using x unfolding final by (simp add: column_of_def idx_state_after_relations)
  with i n show ?thesis
    by (simp add: approximate_nearest_neighbor_def opclass_distance_def)
qed

text \<open>
  The run on a database where \<open>service_search_view\<close> is a table, the extension is
  installed or can be installed, and an \<open>embedding\<close> column, if there is one already,
  has a type which the index's operator class takes: no statement raises an error, the
  column is there afterwards, and so is the index if its name was free.
\<close>

lemma col_present_after:
  assumes "relations db rel = Some r" and "rel_kind r = Table" and "type_defined db ty"
    and "rel_columns r col = None \<or> (\<exists>c. rel_columns r col = Some c \<and> P c)"
    and "P \<lparr>col_type = ty, col_not_null = False\<rparr>"
  shows "\<exists>d r' c. exec_statement (AlterTableAddColumn rel True col ty) db = Inr d
     \<and> relations d = (relations db)(rel \<mapsto> r') \<and> rel_kind r' = Table
     \<and> rel_columns r' col = Some c \<and> P c
     \<and> (rel_columns r col = None \<longrightarrow> c = \<lparr>col_type = ty, col_not_null = False\<rparr>)
     \<and> indexes d = indexes db \<and> extensions d = extensions db"
proof (cases "rel_columns r col")
  case None
  let ?c = "\<lparr>col_type = ty, col_not_null = False\<rparr>"
  let ?r = "r\<lparr>rel_columns := (rel_columns r)(col \<mapsto> ?c)\<rparr>"
  let ?d = "db\<lparr>relations := (relations db)(rel \<mapsto> ?r)\<rparr>"
  have "exec_statement (AlterTableAddColumn rel True col ty) db = Inr ?d"
    using assms(1-3) None by simp
  moreover have "relations ?d = (relations db)(rel \<mapsto> ?r)" "rel_kind ?r = Table"
    "rel_columns ?r col = Some ?c" "indexes ?d = indexes db" "extensions ?d = extensions db"
    using assms(2) by simp_all
  ultimately show ?thesis using assms(5) by blast
next
  case (Some c)
  with assms(4) have "P c" by simp
  have "exec_statement (AlterTableAddColumn rel True col ty) db = Inr db"
    using assms(1-2) Some by simp
  moreover have "relations db = (relations db)(rel \<mapsto> r)"
    using assms(1) by (simp add: fun_upd_idem)
  ultimately show ?thesis using assms(2) Some \<open>P c\<close> by auto
qed

lemma idx_creates:
  assumes "relations db rel = Some r" and "rel_kind r = Table" and "rel_columns r col = Some c"
    and "method_defined db m" and "opclass_accepts m oc (col_type c)"
    and "indexes db n = None" and "relations db n = None"
  shows "exec_statement (CreateIndex g n rel m col oc) db =
     Inr (db\<lparr>indexes := (indexes db)
       (n \<mapsto> \<lparr>idx_relation = rel, idx_method = m, idx_column = col, idx_opclass = oc\<rparr>)\<rparr>)"
  using assms by simp

lemma migration_run:
  assumes r: "relations db ''service_search_view'' = Some r" and t: "rel_kind r = Table"
    and c: "rel_columns r ''embedding'' = None
      \<or> (\<exists>c. rel_columns r ''embedding'' = Some c \<and> opclass_accepts ''hnsw'' ''vector_cosine_ops'' (col_type c))"
    and e: "''vector'' \<in> extensions db \<union> available_extensions db"
  shows "\<exists>d r' c. run_migration stop db = ([], d)
     \<and> relations d = (relations db)(''service_search_view'' \<mapsto> r')
     \<and> rel_columns r' ''embedding'' = Some c \<and> opclass_accepts ''hnsw'' ''vector_cosine_ops'' (col_type c)
     \<and> (rel_columns r ''embedding'' = None \<longrightarrow>
           c = \<lparr>col_type = Vector 1536, col_not_null = False\<rparr>)
     \<and> (indexes db ''idx_embedding_cosine'' = None
           \<and> relations db ''idx_embedding_cosine'' = None \<longrightarrow>
         indexes d = (indexes db)(''idx_embedding_cosine'' \<mapsto>
           \<lparr>idx_relation = ''service_search_view'', idx_method = ''hnsw'',
            idx_column = ''embedding'', idx_opclass = ''vector_cosine_ops''\<rparr>))"
proof -
  let ?s1 = "CreateExtension True ''vector''"
  let ?s2 = "AlterTableAddColumn ''service_search_view'' True ''embedding'' (Vector 1536)"
  let ?s3 = "CreateIndex True ''idx_embedding_cosine'' ''service_search_view'' ''hnsw''
        ''embedding'' ''vector_cosine_ops''"
  let ?P = "\<lambda>c. opclass_accepts ''hnsw'' ''vector_cosine_ops'' (col_type c)"
  let ?I = "\<lparr>idx_relation = ''service_search_view'', idx_method = ''hnsw'',
            idx_column = ''embedding'', idx_opclass = ''vector_cosine_ops''\<rparr>"
  from ext_succeeds [OF e] obtain d1 where s1: "exec_statement ?s1 db = Inr d1"
    and e1: "''vector'' \<in> extensions d1" and r1: "relations d1 = relations db"
    and i1: "indexes d1 = indexes db"
    by blast
  have ty: "type_defined d1 (Vector 1536)"
    using e1 by (simp add: type_defined_def)
  have new: "?P \<lparr>col_type = Vector 1536, col_not_null = False\<rparr>"
    by (simp add: opclass_accepts_def approximate_nearest_neighbor_def opclass_distance_def)
  from r r1 have r1': "relations d1 ''service_search_view'' = Some r"
    by simp
  from col_present_after [of d1 _ r _ _ ?P, OF r1' t ty c new]
  obtain d2 r' c' where s2: "exec_statement ?s2 d1 = Inr d2"
    and r2: "relations d2 = (relations d1)(''service_search_view'' \<mapsto> r')"
    and t2: "rel_kind r' = Table" and c2: "rel_columns r' ''embedding'' = Some c'"
    and p2: "?P c'"
    and fresh: "rel_columns r ''embedding'' = None \<longrightarrow>
        c' = \<lparr>col_type = Vector 1536, col_not_null = False\<rparr>"
    and i2: "indexes d2 = indexes d1" and e2: "extensions d2 = extensions d1"
    by (elim exE conjE) (rule that)
  have rel2: "relations d2 ''service_search_view'' = Some r'"
    using r2 by simp
  have m2: "method_defined d2 ''hnsw''"
    using e1 e2 by (simp add: method_defined_def)
  note a2 = p2
  obtain d3 where s3: "exec_statement ?s3 d2 = Inr d3"
    using idx_succeeds [OF rel2 t2 c2 m2 a2] by blast
  from idx_changes [OF s3] have r3: "relations d3 = relations d2"
    by auto
  have run: "run_migration stop db = ([], d3)"
    unfolding run_migration_def migration_def
    by (simp only: run_script.simps s1 s2 s3 sum.case)
  have created: "indexes d3 = (indexes db)(''idx_embedding_cosine'' \<mapsto> ?I)"
    if free: "indexes db ''idx_embedding_cosine'' = None
       \<and> relations db ''idx_embedding_cosine'' = None"
  proof -
    have "indexes d2 ''idx_embedding_cosine'' = None"
      using free i1 i2 by simp
    moreover have "relations d2 ''idx_embedding_cosine'' = None"
      using free r1 r2 by simp
    ultimately have "exec_statement ?s3 d2 = Inr (d2\<lparr>indexes := (indexes d2)
        (''idx_embedding_cosine'' \<mapsto> ?I)\<rparr>)"
      using rel2 t2 c2 m2 a2 by (intro idx_creates)
    with s3 have "d3 = d2\<lparr>indexes := (indexes d2)(''idx_embedding_cosine'' \<mapsto> ?I)\<rparr>"
      by simp
    then show ?thesis using i1 i2 by simp
  qed
  from run r3 r2 r1 c2 p2 fresh created show ?thesis
    by (intro exI [of _ d3] exI [of _ r'] exI [of _ c']) simp
qed

text \<open>
  Claim C6. On a database where \<open>service_search_view\<close> is a table without an
  \<open>embedding\<close> column and the vector extension is installed or can be installed, the
  migration runs without error and adds the column: afterwards \<open>service_search_view\<close>
  has an \<open>embedding\<close> column which is nullable and of type \<open>vector(1536)\<close>. That column
  takes \<open>NULL\<close>, takes a vector exactly when it has \<open>1536\<close> components, and takes no
  value of another type: every populated value has \<open>1536\<close> dimensions, by the column
  type.
\<close>

theorem embedding_column_type:
  assumes "relations db ''service_search_view'' = Some r" and "rel_kind r = Table"
    and "rel_columns r ''embedding'' = None"
    and "''vector'' \<in> extensions db \<union> available_extensions db"
  shows "fst (run_migration stop db) = []
     \<and> (\<exists>c. column_of (snd (run_migration stop db)) ''service_search_view'' ''embedding''
            = Some c
          \<and> col_type c = Vector 1536 \<and> \<not> col_not_null c
          \<and> column_accepts c Null
          \<and> (\<forall>xs. column_accepts c (VectorValue xs) = (length xs = 1536))
          \<and> (\<forall>v. \<not> column_accepts c (OtherValue v)))"
proof -
  from assms(3) have c: "rel_columns r ''embedding'' = None
      \<or> (\<exists>c. rel_columns r ''embedding'' = Some c \<and> opclass_accepts ''hnsw'' ''vector_cosine_ops'' (col_type c))"
    by simp
  from migration_run [OF assms(1,2) c assms(4), of stop]
  obtain d r' c' where run: "run_migration stop db = ([], d)"
    and rel: "relations d = (relations db)(''service_search_view'' \<mapsto> r')"
    and col: "rel_columns r' ''embedding'' = Some c'"
    and new: "rel_columns r ''embedding'' = None \<longrightarrow>
        c' = \<lparr>col_type = Vector 1536, col_not_null = False\<rparr>"
    by (elim exE conjE) (rule that)
  from new assms(3) have c': "c' = \<lparr>col_type = Vector 1536, col_not_null = False\<rparr>"
    by simp
  have "column_of d ''service_search_view'' ''embedding'' = Some c'"
    using rel col by (simp add: column_of_def)
  with run c' show ?thesis by simp
qed

text \<open>
  The database where \<open>service_search_view\<close> is a table with an \<open>id\<close> column only: the run
  raises no error and adds the column, which refuses a vector of three components.
\<close>

theorem embedding_column_type_witness:
  "relations table_database ''service_search_view'' =
     Some \<lparr>rel_kind = Table,
       rel_columns = [''id'' \<mapsto> \<lparr>col_type = OtherType ''integer'', col_not_null = True\<rparr>]\<rparr>
   \<and> ''vector'' \<in> extensions table_database \<union> available_extensions table_database
   \<and> fst (run_migration True table_database) = []
   \<and> (\<exists>c. column_of (snd (run_migration True table_database))
            ''service_search_view'' ''embedding'' = Some c
          \<and> col_type c = Vector 1536 \<and> \<not> col_not_null c
          \<and> \<not> column_accepts c (VectorValue [1, 2, 3 :: int]))"
proof -
  let ?r = "\<lparr>rel_kind = Table,
       rel_columns = [''id'' \<mapsto> \<lparr>col_type = OtherType ''integer'', col_not_null = True\<rparr>]\<rparr>"
  have r: "relations table_database ''service_search_view'' = Some ?r"
    by (simp add: table_database_def)
  have t: "rel_kind ?r = Table" and c: "rel_columns ?r ''embedding'' = None"
    by simp_all
  have e: "''vector'' \<in> extensions table_database \<union> available_extensions table_database"
    by (simp add: table_database_def)
  from embedding_column_type [OF r t c e, of True, where ?'b = int] r e show ?thesis
    by auto
qed

text \<open>
  Claim C7. On such a database (an \<open>embedding\<close> column, if there is one already, being
  of a type which the operator class takes) where the name \<open>idx_embedding_cosine\<close> is
  free, the migration runs without error and creates the index: afterwards
  \<open>idx_embedding_cosine\<close> is an \<open>hnsw\<close> index, an approximate nearest-neighbor access
  method, on the \<open>embedding\<close> column of \<open>service_search_view\<close>, with the operator class
  of the cosine distance, and the column it is on exists and has a vector type.
\<close>

theorem index_is_hnsw_cosine:
  assumes "relations db ''service_search_view'' = Some r" and "rel_kind r = Table"
    and "rel_columns r ''embedding'' = None
      \<or> (\<exists>c. rel_columns r ''embedding'' = Some c \<and> opclass_accepts ''hnsw'' ''vector_cosine_ops'' (col_type c))"
    and "''vector'' \<in> extensions db \<union> available_extensions db"
    and "indexes db ''idx_embedding_cosine'' = None"
    and "relations db ''idx_embedding_cosine'' = None"
  shows "fst (run_migration stop db) = []
     \<and> (\<exists>i. indexes (snd (run_migration stop db)) ''idx_embedding_cosine'' = Some i
          \<and> i = \<lparr>idx_relation = ''service_search_view'', idx_method = ''hnsw'',
                  idx_column = ''embedding'', idx_opclass = ''vector_cosine_ops''\<rparr>
          \<and> approximate_nearest_neighbor (idx_method i)
          \<and> opclass_distance (idx_opclass i) = Some Cosine
          \<and> (\<exists>x n. column_of (snd (run_migration stop db)) (idx_relation i) (idx_column i)
                 = Some x \<and> col_type x = Vector n))"
proof -
  from migration_run [OF assms(1-4), of stop]
  obtain d r' c' where run: "run_migration stop db = ([], d)"
    and rel: "relations d = (relations db)(''service_search_view'' \<mapsto> r')"
    and col: "rel_columns r' ''embedding'' = Some c'"
    and acc: "opclass_accepts ''hnsw'' ''vector_cosine_ops'' (col_type c')"
    and idx: "indexes db ''idx_embedding_cosine'' = None
           \<and> relations db ''idx_embedding_cosine'' = None \<longrightarrow>
         indexes d = (indexes db)(''idx_embedding_cosine'' \<mapsto>
           \<lparr>idx_relation = ''service_search_view'', idx_method = ''hnsw'',
            idx_column = ''embedding'', idx_opclass = ''vector_cosine_ops''\<rparr>)"
    by (elim exE conjE) (rule that)
  from idx assms(5,6) have "indexes d ''idx_embedding_cosine'' =
      Some \<lparr>idx_relation = ''service_search_view'', idx_method = ''hnsw'',
            idx_column = ''embedding'', idx_opclass = ''vector_cosine_ops''\<rparr>"
    by simp
  moreover have "column_of d ''service_search_view'' ''embedding'' = Some c'"
    using rel col by (simp add: column_of_def)
  moreover from acc obtain n where "col_type c' = Vector n"
    by (cases "col_type c'") (simp_all add: opclass_accepts_def opclass_distance_def)
  ultimately show ?thesis
    using run by (simp add: approximate_nearest_neighbor_def opclass_distance_def)
qed

text \<open>The same database: the run raises no error and creates the index.\<close>

theorem index_is_hnsw_cosine_witness:
  "relations table_database ''service_search_view'' =
     Some \<lparr>rel_kind = Table,
       rel_columns = [''id'' \<mapsto> \<lparr>col_type = OtherType ''integer'', col_not_null = True\<rparr>]\<rparr>
   \<and> indexes table_database ''idx_embedding_cosine'' = None
   \<and> relations table_database ''idx_embedding_cosine'' = None
   \<and> fst (run_migration False table_database) = []
   \<and> indexes (snd (run_migration False table_database)) ''idx_embedding_cosine'' =
       Some \<lparr>idx_relation = ''service_search_view'', idx_method = ''hnsw'',
             idx_column = ''embedding'', idx_opclass = ''vector_cosine_ops''\<rparr>"
proof -
  let ?r = "\<lparr>rel_kind = Table,
       rel_columns = [''id'' \<mapsto> \<lparr>col_type = OtherType ''integer'', col_not_null = True\<rparr>]\<rparr>"
  have r: "relations table_database ''service_search_view'' = Some ?r"
    by (simp add: table_database_def)
  have t: "rel_kind ?r = Table"
    by simp
  have c: "rel_columns ?r ''embedding'' = None
      \<or> (\<exists>c. rel_columns ?r ''embedding'' = Some c
            \<and> opclass_accepts ''hnsw'' ''vector_cosine_ops'' (col_type c))"
    by simp
  have e: "''vector'' \<in> extensions table_database \<union> available_extensions table_database"
    by (simp add: table_database_def)
  have i: "indexes table_database ''idx_embedding_cosine'' = None"
    and n: "relations table_database ''idx_embedding_cosine'' = None"
    by (simp_all add: table_database_def)
  from index_is_hnsw_cosine [OF r t c e i n, of False] r i n show ?thesis
    by auto
qed

section \<open>The text of the sources\<close>

text \<open>
  Claim C4, as amended. The SQL fragment consists of exactly three statements: the
  first enables an extension, the second adds a column, the third adds an index; each
  carries \<open>IF NOT EXISTS\<close>.
\<close>

theorem migration_statements:
  "statement_count migration_sql = 3 \<and> length migration = 3
   \<and> map kind_of migration = [EnablesExtension, AddsColumn, AddsIndex]
   \<and> list_all guarded migration"
  by (simp add: statement_count_def migration_sql_def migration_def)

text \<open>Claim C4 as stated, with exactly two statements, fails: there are three.\<close>

theorem migration_statements_counterexample:
  "statement_count migration_sql \<noteq> 2 \<and> length migration \<noteq> 2"
  by (simp add: statement_count_def migration_sql_def migration_def)

text \<open>
  Claim C8. The relation name \<open>service_search_view\<close>, which the SQL migration refers to,
  occurs in no frontend source file: not in \<open>App.jsx\<close> and not in the render entry
  point.
\<close>

theorem relation_name_not_in_frontend:
  "\<not> occurs_in ''service_search_view'' (file_text App_jsx)
   \<and> \<not> occurs_in ''service_search_view'' (file_text main_jsx)
   \<and> filter (\<lambda>f. occurs_in ''service_search_view'' (file_text f)) frontend_files = []
   \<and> occurs_in ''service_search_view'' (file_text migration_sql)"
  by (simp add: frontend_files_def file_text_def App_jsx_def main_jsx_def migration_sql_def)

end
